theory Spec2Isabelle
  imports Main "HOL-Library.Sublist" "HOL-Library.Multiset"
begin

section \<open>Python values used by the ClinVar pipeline\<close>

text \<open>
  The errors the modelled code can raise.  \<open>IndexError\<close> comes from indexing a list
  out of range, \<open>AttributeError\<close> from calling \<open>.group\<close> on the \<open>None\<close> that a failed
  \<open>re.search\<close> returns, \<open>KeyError\<close> from naming a column a table does not have.
\<close>

datatype py_error = IndexError | AttributeError | KeyError

text \<open>
  \<open>s.split(sep)\<close> for a separator of one character: the string is cut at every
  occurrence of the separator, and the result always has at least one element
  (\<open>''.split(';')\<close> is \<open>['']\<close>).
\<close>

fun split_str :: "char \<Rightarrow> string \<Rightarrow> string list" where
  "split_str sep [] = [[]]"
| "split_str sep (c # cs) =
     (if c = sep then [] # split_str sep cs
      else (case split_str sep cs of
              [] \<Rightarrow> [[c]]
            | w # ws \<Rightarrow> (c # w) # ws))"

text \<open>
  \<open>xs[i]\<close> on a Python list: a negative index counts from the end, an index out of
  range raises \<open>IndexError\<close>.
\<close>

fun getitem :: "'a list \<Rightarrow> int \<Rightarrow> py_error + 'a" where
  "getitem xs i =
     (if 0 \<le> i \<and> i < int (length xs) then Inr (xs ! nat i)
      else if i < 0 \<and> - int (length xs) \<le> i then Inr (xs ! nat (int (length xs) + i))
      else Inl IndexError)"

text \<open>
  A Python \<open>dict\<close> keeps its keys in insertion order: \<open>d[k] = v\<close> overwrites the value
  of a key that is present, in place, and appends a new key at the end.  The same
  holds for the columns of a pandas DataFrame under \<open>df[name] = values\<close>.
\<close>

fun dict_setitem :: "('k \<times> 'v) list \<Rightarrow> 'k \<Rightarrow> 'v \<Rightarrow> ('k \<times> 'v) list" where
  "dict_setitem [] k v = [(k, v)]"
| "dict_setitem ((k', v') # d) k v =
     (if k' = k then (k, v) # d else (k', v') # dict_setitem d k v)"

section \<open>The annotation-string decoder\<close>

text \<open>
  \<open>Clinvar.convert_info_string_to_dict\<close>:
  \<^verbatim>\<open>
    info_dict = {}
    for pair in info_string.split(';'):
        info_dict[pair.split('=')[0]] = pair.split('=')[1]
    return info_dict
  \<close>
  Python evaluates the right-hand side of the assignment first, so
  \<open>pair.split('=')[1]\<close> is the expression that raises on a piece without \<open>=\<close>.
\<close>

fun info_loop :: "(string \<times> string) list \<Rightarrow> string list \<Rightarrow> py_error + (string \<times> string) list" where
  "info_loop info_dict [] = Inr info_dict"
| "info_loop info_dict (pair # pairs) =
     (case getitem (split_str (CHR ''='') pair) 1 of
        Inl e \<Rightarrow> Inl e
      | Inr v \<Rightarrow>
          (case getitem (split_str (CHR ''='') pair) 0 of
             Inl e \<Rightarrow> Inl e
           | Inr k \<Rightarrow> info_loop (dict_setitem info_dict k v) pairs))"

definition convert_info_string_to_dict :: "string \<Rightarrow> py_error + (string \<times> string) list" where
  "convert_info_string_to_dict info_string = info_loop [] (split_str (CHR '';'') info_string)"


text \<open>
  The two fields of a piece that the decoder reads: the text before the first \<open>=\<close>,
  and the text between the first \<open>=\<close> and the second (up to the end of the piece when
  there is no second one).
\<close>

definition piece_key :: "string \<Rightarrow> string" where
  "piece_key p = takeWhile (\<lambda>c. c \<noteq> CHR ''='') p"

definition piece_value :: "string \<Rightarrow> string" where
  "piece_value p = takeWhile (\<lambda>c. c \<noteq> CHR ''='') (tl (dropWhile (\<lambda>c. c \<noteq> CHR ''='') p))"

text \<open>
  \<open>sep.join(pieces)\<close> for a separator of one character, and the re-encoding of a
  decoded mapping that the round-trip property speaks of: each key joined to its
  value with \<open>=\<close>, the pairs joined with \<open>;\<close>.  The source has no encoder; this one
  follows the wording of the property.
\<close>

fun join_str :: "char \<Rightarrow> string list \<Rightarrow> string" where
  "join_str sep [] = []"
| "join_str sep [p] = p"
| "join_str sep (p # q # ps) = p @ sep # join_str sep (q # ps)"

definition encode_info_dict :: "(string \<times> string) list \<Rightarrow> string" where
  "encode_info_dict d = join_str (CHR '';'') (map (\<lambda>(k, v). k @ CHR ''='' # v) d)"

text \<open>
  What holds of every decoded mapping: keys are distinct, and neither keys nor values
  contain a separator.
\<close>

definition plain :: "string \<Rightarrow> bool" where
  "plain w = (CHR ''='' \<notin> set w \<and> CHR '';'' \<notin> set w)"

definition dict_ok :: "(string \<times> string) list \<Rightarrow> bool" where
  "dict_ok d = (distinct (map fst d) \<and> (\<forall>(k, v)\<in>set d. plain k \<and> plain v))"

section \<open>The meta-information parser\<close>

text \<open>
  \<open>line.startswith(p)\<close>, and the two characters that cannot be written inside a
  string literal here: the double quote and the line feed.  Lines are ASCII text, as
  the meta-information block of a VCF file is.
\<close>

definition startswith :: "string \<Rightarrow> string \<Rightarrow> bool" where
  "startswith s p = prefix p s"

definition dquote :: char where
  "dquote = CHR 0x22"

definition newline :: char where
  "newline = CHR 0x0A"

text \<open>
  \<open>re.search('ID=(\w+)', line)\<close>, as the value of \<open>.group(1)\<close> when there is a match and
  \<open>None\<close> when there is none.  The search takes the leftmost position at which \<open>ID=\<close>
  is followed by at least one word character (a letter, a digit or the underscore);
  the group is the longest run of word characters there.
\<close>

definition is_word :: "char \<Rightarrow> bool" where
  "is_word c = (c \<in> set ''abcdefghijklmnopqrstuvwxyzABCDEFGHIJKLMNOPQRSTUVWXYZ0123456789_'')"

fun search_id :: "string \<Rightarrow> string option" where
  "search_id [] = None"
| "search_id (c # cs) =
     (if startswith (c # cs) ''ID='' \<and> takeWhile is_word (drop 3 (c # cs)) \<noteq> []
      then Some (takeWhile is_word (drop 3 (c # cs)))
      else search_id cs)"

text \<open>
  \<open>re.search('Description="(.*)"', line)\<close>, in the same way.  The dot matches every
  character but the line feed and the star is greedy: at the leftmost position where
  \<open>Description="\<close> is followed, before the end of the line, by a double quote, the
  group runs up to the last such quote.
\<close>

definition upto_last :: "char \<Rightarrow> string \<Rightarrow> string" where
  "upto_last q run = rev (tl (dropWhile (\<lambda>x. x \<noteq> q) (rev run)))"

fun search_description :: "string \<Rightarrow> string option" where
  "search_description [] = None"
| "search_description (c # cs) =
     (if startswith (c # cs) (''Description='' @ [dquote]) \<and>
         dquote \<in> set (takeWhile (\<lambda>x. x \<noteq> newline) (drop 13 (c # cs)))
      then Some (upto_last dquote (takeWhile (\<lambda>x. x \<noteq> newline) (drop 13 (c # cs))))
      else search_description cs)"

text \<open>
  \<open>Clinvar.parse_vcf_meta_info\<close>:
  \<^verbatim>\<open>
    total_meta_rows = 0
    meta_info = {}
    for line in file_obj:
        if line.startswith('##'):
            total_meta_rows = total_meta_rows + 1
        if line.startswith('##INFO='):
            meta_info[re.search('ID=(\w+)', line).group(1)] = re.search(
                'Description="(.*)"', line).group(1)
    return meta_info, total_meta_rows
  \<close>
  The right-hand side of the assignment is evaluated first; either search that
  finds nothing returns \<open>None\<close>, and \<open>.group\<close> on it raises \<open>AttributeError\<close>.
\<close>

fun meta_loop ::
  "(string \<times> string) list \<Rightarrow> int \<Rightarrow> string list \<Rightarrow> py_error + ((string \<times> string) list \<times> int)" where
  "meta_loop meta_info total_meta_rows [] = Inr (meta_info, total_meta_rows)"
| "meta_loop meta_info total_meta_rows (line # lines) =
     (let total = (if startswith line ''##'' then total_meta_rows + 1 else total_meta_rows)
      in if startswith line ''##INFO='' then
           (case search_description line of
              None \<Rightarrow> Inl AttributeError
            | Some description \<Rightarrow>
                (case search_id line of
                   None \<Rightarrow> Inl AttributeError
                 | Some ident \<Rightarrow> meta_loop (dict_setitem meta_info ident description) total lines))
         else meta_loop meta_info total lines)"

definition parse_vcf_meta_info :: "string list \<Rightarrow> py_error + ((string \<times> string) list \<times> int)" where
  "parse_vcf_meta_info file_obj = meta_loop [] 0 file_obj"

text \<open>
  For stating what the parser returns: the entry an \<open>##INFO=\<close> line contributes when
  both searches match, the lines that start with \<open>##INFO=\<close>, and those that start with
  \<open>##\<close>.
\<close>

definition info_entry :: "string \<Rightarrow> (string \<times> string) option" where
  "info_entry line =
     (case search_description line of
        None \<Rightarrow> None
      | Some description \<Rightarrow>
          (case search_id line of None \<Rightarrow> None | Some ident \<Rightarrow> Some (ident, description)))"

definition info_lines :: "string list \<Rightarrow> string list" where
  "info_lines lines = filter (\<lambda>l. startswith l ''##INFO='') lines"

definition meta_lines :: "string list \<Rightarrow> string list" where
  "meta_lines lines = filter (\<lambda>l. startswith l ''##'') lines"

section \<open>Tables\<close>

text \<open>
  A cell of a pandas DataFrame as the pipeline meets it: a string, an integer, a
  boolean, or the null value \<open>NaN\<close> that stands for a missing entry.
\<close>

datatype cell = Str string | Num int | Boolean bool | NaN

text \<open>
  \<open>Series.astype('str')\<close> turns every cell into its Python \<open>str\<close>: a string stays as it
  is, an integer becomes its decimal digits, a boolean \<open>True\<close> or \<open>False\<close>, and the null
  value the three letters \<open>nan\<close>.
\<close>

function str_of_nat :: "nat \<Rightarrow> string" where
  "str_of_nat n =
     (if n < 10 then [char_of (48 + n)]
      else str_of_nat (n div 10) @ [char_of (48 + n mod 10)])"
  by pat_completeness auto
termination
  by (relation "measure id") auto

definition str_of_int :: "int \<Rightarrow> string" where
  "str_of_int i = (if i < 0 then CHR ''-'' # str_of_nat (nat (- i)) else str_of_nat (nat i))"

fun astype_str :: "cell \<Rightarrow> string" where
  "astype_str (Str s) = s"
| "astype_str (Num i) = str_of_int i"
| "astype_str (Boolean b) = (if b then ''True'' else ''False'')"
| "astype_str NaN = ''nan''"

text \<open>\<open>Series.notna()\<close>: false on the null value, true on everything else.\<close>

fun notna :: "cell \<Rightarrow> cell" where
  "notna NaN = Boolean False"
| "notna c = Boolean True"

text \<open>
  A DataFrame is column-oriented: the length of its index (the number of rows) and
  its columns in order, each a name with the cells of that column.  \<open>df[name]\<close> raises
  \<open>KeyError\<close> for a name that is no column; \<open>df[name] = values\<close> replaces a column in
  place or appends a new one.
\<close>

record dataframe =
  index_len :: nat
  cols :: "(string \<times> cell list) list"

definition columns :: "dataframe \<Rightarrow> string list" where
  "columns df = map fst (cols df)"

definition getcol :: "dataframe \<Rightarrow> string \<Rightarrow> py_error + cell list" where
  "getcol df name = (case map_of (cols df) name of None \<Rightarrow> Inl KeyError | Some xs \<Rightarrow> Inr xs)"

definition setcol :: "dataframe \<Rightarrow> string \<Rightarrow> cell list \<Rightarrow> dataframe" where
  "setcol df name xs = df\<lparr>cols := dict_setitem (cols df) name xs\<rparr>"

text \<open>
  \<open>Series.apply(f)\<close> calls \<open>f\<close> on the cells in order; an exception raised by \<open>f\<close> ends
  the whole call.
\<close>

fun series_apply :: "(cell \<Rightarrow> py_error + cell) \<Rightarrow> cell list \<Rightarrow> py_error + cell list" where
  "series_apply f [] = Inr []"
| "series_apply f (x # xs) =
     (case f x of
        Inl e \<Rightarrow> Inl e
      | Inr y \<Rightarrow> (case series_apply f xs of Inl e \<Rightarrow> Inl e | Inr ys \<Rightarrow> Inr (y # ys)))"

section \<open>The column derivations\<close>

text \<open>
  \<open>Clinvar.create_gene_column\<close>:
  \<^verbatim>\<open>
    if 'GENEINFO' in self.dataframe.columns:
        self.dataframe['GENE'] = self.dataframe['GENEINFO'].astype(
            'str').apply(lambda x: x.split(':')[0])
  \<close>
  \<open>gene_symbol\<close> is the lambda, applied to a cell after \<open>astype('str')\<close>.
\<close>

definition gene_symbol :: "cell \<Rightarrow> py_error + cell" where
  "gene_symbol x =
     (case getitem (split_str (CHR '':'') (astype_str x)) 0 of
        Inl e \<Rightarrow> Inl e | Inr g \<Rightarrow> Inr (Str g))"

definition create_gene_column :: "dataframe \<Rightarrow> py_error + dataframe" where
  "create_gene_column df =
     (if ''GENEINFO'' \<in> set (columns df) then
        (case getcol df ''GENEINFO'' of
           Inl e \<Rightarrow> Inl e
         | Inr geneinfo \<Rightarrow>
             (case series_apply gene_symbol geneinfo of
                Inl e \<Rightarrow> Inl e
              | Inr gene \<Rightarrow> Inr (setcol df ''GENE'' gene)))
      else Inr df)"

text \<open>
  \<open>Clinvar.create_mol_conseq_column\<close>:
  \<^verbatim>\<open>
    if 'MC' in self.dataframe.columns:
        self.dataframe['MOLECULAR CONSEQUENCE'] = self.dataframe[
            'MC'].astype('str').apply(lambda x: x.split('|')[-1] if len(
            x.split('|')) == 2 else 'uncertain')
  \<close>
\<close>

definition mol_conseq :: "cell \<Rightarrow> py_error + cell" where
  "mol_conseq x =
     (if length (split_str (CHR ''|'') (astype_str x)) = 2 then
        (case getitem (split_str (CHR ''|'') (astype_str x)) (- 1) of
           Inl e \<Rightarrow> Inl e | Inr t \<Rightarrow> Inr (Str t))
      else Inr (Str ''uncertain''))"

definition create_mol_conseq_column :: "dataframe \<Rightarrow> py_error + dataframe" where
  "create_mol_conseq_column df =
     (if ''MC'' \<in> set (columns df) then
        (case getcol df ''MC'' of
           Inl e \<Rightarrow> Inl e
         | Inr mc \<Rightarrow>
             (case series_apply mol_conseq mc of
                Inl e \<Rightarrow> Inl e
              | Inr out \<Rightarrow> Inr (setcol df ''MOLECULAR CONSEQUENCE'' out)))
      else Inr df)"

text \<open>
  \<open>Clinvar.simplify_class_names\<close>, with its three lists.  The argument is whatever
  cell the column holds; \<open>in\<close> compares it with the strings of a list by equality.
\<close>

definition benign_class_names :: "cell list" where
  "benign_class_names = [Str ''Likely_benign'', Str ''Benign'', Str ''Benign/Likely_benign'']"

definition vus_class_names :: "cell list" where
  "vus_class_names = [Str ''Uncertain_significance'']"

definition pathogenic_class_names :: "cell list" where
  "pathogenic_class_names =
     [Str ''Pathogenic'', Str ''Likely_pathogenic'', Str ''Pathogenic/Likely_pathogenic'',
      Str ''risk_factor'', Str ''Pathogenic,_risk_factor'',
      Str ''Likely_pathogenic,_risk_factor'',
      Str ''Pathogenic/Likely_pathogenic,_risk_factor'']"

definition simplify_class_names :: "cell \<Rightarrow> cell" where
  "simplify_class_names clnsig_name =
     (if clnsig_name \<in> set benign_class_names then Str ''Benign''
      else if clnsig_name \<in> set vus_class_names then Str ''VUS''
      else if clnsig_name \<in> set pathogenic_class_names then Str ''Pathogenic''
      else Str ''Other'')"

text \<open>
  \<open>Clinvar.create_class_column\<close>:
  \<^verbatim>\<open>
    if 'CLNSIG' in self.dataframe.columns:
        self.dataframe['CLASS'] = self.dataframe['CLNSIG'].apply(
            self.simplify_class_names)
  \<close>
\<close>

definition create_class_column :: "dataframe \<Rightarrow> py_error + dataframe" where
  "create_class_column df =
     (if ''CLNSIG'' \<in> set (columns df) then
        (case getcol df ''CLNSIG'' of
           Inl e \<Rightarrow> Inl e
         | Inr clnsig \<Rightarrow>
             (case series_apply (\<lambda>x. Inr (simplify_class_names x)) clnsig of
                Inl e \<Rightarrow> Inl e
              | Inr cls \<Rightarrow> Inr (setcol df ''CLASS'' cls)))
      else Inr df)"

text \<open>
  \<open>Clinvar.create_is_conflicting_column\<close>:
  \<^verbatim>\<open>
    if 'CLNSIGCONF' in self.dataframe.columns:
        self.dataframe['IS_CONFLICTING'] = self.dataframe['CLNSIGCONF'].notna()
    else:
        self.dataframe['IS_CONFLICTING'] = False
  \<close>
  The scalar \<open>False\<close> is broadcast over the index.
\<close>

definition create_is_conflicting_column :: "dataframe \<Rightarrow> py_error + dataframe" where
  "create_is_conflicting_column df =
     (if ''CLNSIGCONF'' \<in> set (columns df) then
        (case getcol df ''CLNSIGCONF'' of
           Inl e \<Rightarrow> Inl e
         | Inr conf \<Rightarrow> Inr (setcol df ''IS_CONFLICTING'' (map notna conf)))
      else Inr (setcol df ''IS_CONFLICTING'' (replicate (index_len df) (Boolean False))))"

section \<open>The table assembler\<close>

text \<open>
  pandas joins two tables by computing, for every row of the result, the position of
  the left row and of the right row it is made of, and then taking the cells of every
  column at those positions.  A left row without a partner is paired with no right
  row, and the right columns are null there.
\<close>

definition take_rows :: "nat list \<Rightarrow> cell list \<Rightarrow> cell list" where
  "take_rows idx c = map (\<lambda>i. c ! i) idx"

definition take_rows_opt :: "nat option list \<Rightarrow> cell list \<Rightarrow> cell list" where
  "take_rows_opt idx c = map (\<lambda>j. case j of None \<Rightarrow> NaN | Some j \<Rightarrow> c ! j) idx"

text \<open>The columns a join is made on: \<open>KeyError\<close> when one of them is missing.\<close>

fun getcols :: "dataframe \<Rightarrow> string list \<Rightarrow> py_error + cell list list" where
  "getcols df [] = Inr []"
| "getcols df (name # names) =
     (case getcol df name of
        Inl e \<Rightarrow> Inl e
      | Inr c \<Rightarrow> (case getcols df names of Inl e \<Rightarrow> Inl e | Inr cs \<Rightarrow> Inr (c # cs)))"

definition key_at :: "cell list list \<Rightarrow> nat \<Rightarrow> cell list" where
  "key_at ks i = map (\<lambda>c. c ! i) ks"

text \<open>
  The positions of a join.  Left rows are taken in order, each with its partners in
  the order of the right table, as pandas documents for \<open>how='inner'\<close> and
  \<open>how='left'\<close>.  Keys are compared by equality of their cells, so two null keys match
  each other, as they do in pandas.
\<close>

datatype how = HowInner | HowLeft

definition join_indexers ::
  "how \<Rightarrow> nat \<Rightarrow> nat \<Rightarrow> cell list list \<Rightarrow> cell list list \<Rightarrow> (nat \<times> nat option) list" where
  "join_indexers h nl nr lk rk =
     concat (map (\<lambda>i. if h = HowLeft \<and> filter (\<lambda>j. key_at rk j = key_at lk i) [0..<nr] = []
                       then [(i, None)]
                       else map (\<lambda>j. (i, Some j)) (filter (\<lambda>j. key_at rk j = key_at lk i) [0..<nr]))
                 [0..<nl])"

text \<open>
  \<open>left.merge(right, how=h, left_on=..., right_on=...)\<close>.  A column name that both
  tables have gets the suffix \<open>_x\<close> on the left and \<open>_y\<close> on the right.  The two lists
  of key names are different names in both calls of the script, so both key columns
  stay in the result.  The loaders give paired key columns the same type (strings
  for chromosome, alleles and gene symbols, integers for positions).
\<close>

definition with_suffix :: "string \<Rightarrow> string list \<Rightarrow> string \<Rightarrow> string" where
  "with_suffix sfx others name = (if name \<in> set others then name @ sfx else name)"

definition merge ::
  "dataframe \<Rightarrow> dataframe \<Rightarrow> how \<Rightarrow> string list \<Rightarrow> string list \<Rightarrow> py_error + dataframe" where
  "merge left right h left_on right_on =
     (case getcols left left_on of
        Inl e \<Rightarrow> Inl e
      | Inr lk \<Rightarrow>
          (case getcols right right_on of
             Inl e \<Rightarrow> Inl e
           | Inr rk \<Rightarrow>
               (let ix = join_indexers h (index_len left) (index_len right) lk rk
                in Inr \<lparr>index_len = length ix,
                        cols =
                          map (\<lambda>(n, c). (with_suffix ''_x'' (columns right) n, take_rows (map fst ix) c))
                              (cols left) @
                          map (\<lambda>(n, c). (with_suffix ''_y'' (columns left) n, take_rows_opt (map snd ix) c))
                              (cols right)\<rparr>)))"

text \<open>
  \<open>Series.isin(values)\<close>, \<open>df[mask]\<close> for a boolean mask, and
  \<open>df.drop(labels, axis=1)\<close>, which raises \<open>KeyError\<close> for a label that is no column.
\<close>

definition isin :: "cell list \<Rightarrow> string list \<Rightarrow> bool list" where
  "isin c values = map (\<lambda>x. x \<in> set (map Str values)) c"

definition boolean_index :: "dataframe \<Rightarrow> bool list \<Rightarrow> dataframe" where
  "boolean_index df keep =
     (let idx = filter (\<lambda>i. keep ! i) [0..<index_len df]
      in \<lparr>index_len = length idx, cols = map (\<lambda>(n, c). (n, take_rows idx c)) (cols df)\<rparr>)"

definition drop_columns :: "dataframe \<Rightarrow> string list \<Rightarrow> py_error + dataframe" where
  "drop_columns df labels =
     (if set labels \<subseteq> set (columns df)
      then Inr (df\<lparr>cols := filter (\<lambda>(n, c). n \<notin> set labels) (cols df)\<rparr>)
      else Inl KeyError)"

text \<open>
  The script \<open>create_master_table.py\<close>, from the three loaded tables on:
  \<^verbatim>\<open>
    master_df = revel_data.dataframe.merge(
        clinvar_data.dataframe, how='inner',
        left_on=['chr', 'hg19_pos', 'ref', 'alt'],
        right_on=['CHROM', 'POS', 'REF', 'ALT'])
    master_df = master_df.merge(dosage_data.dataframe, how='left', left_on='GENE',
                                right_on='#Gene Symbol')
    master_df = master_df[master_df['GENE'].isin(acmg59_genes.acmg59_genes)]
    master_df.drop(['CHROM', 'POS', 'REF', 'ALT', '#Gene Symbol', 'grch38_pos'],
                   axis=1, inplace=True)
  \<close>
  The module \<open>acmg59_genes\<close> is not among the sources: its list of gene symbols is a
  parameter.
\<close>

definition master_df ::
  "string list \<Rightarrow> dataframe \<Rightarrow> dataframe \<Rightarrow> dataframe \<Rightarrow> py_error + dataframe" where
  "master_df acmg59_genes revel clinvar dosage =
     (case merge revel clinvar HowInner [''chr'', ''hg19_pos'', ''ref'', ''alt'']
             [''CHROM'', ''POS'', ''REF'', ''ALT''] of
        Inl e \<Rightarrow> Inl e
      | Inr m1 \<Rightarrow>
          (case merge m1 dosage HowLeft [''GENE''] [''#Gene Symbol''] of
             Inl e \<Rightarrow> Inl e
           | Inr m2 \<Rightarrow>
               (case getcol m2 ''GENE'' of
                  Inl e \<Rightarrow> Inl e
                | Inr gene \<Rightarrow>
                    drop_columns (boolean_index m2 (isin gene acmg59_genes))
                      [''CHROM'', ''POS'', ''REF'', ''ALT'', ''#Gene Symbol'', ''grch38_pos''])))"

section \<open>Tables as sequences of rows\<close>

text \<open>
  The row view of a table: row \<open>i\<close> pairs every column name with the cell of that column
  at position \<open>i\<close>.  The relational operations below are stated on rows, in the words
  of the specification: an inner join keeps the pairs of rows that agree on the keys,
  a left join keeps every left row and fills the right columns with nulls where no
  right row matches, the allow-list filter looks at the gene of a row.
\<close>

definition row_of :: "dataframe \<Rightarrow> nat \<Rightarrow> (string \<times> cell) list" where
  "row_of df i = map (\<lambda>(n, c). (n, c ! i)) (cols df)"

definition rows :: "dataframe \<Rightarrow> (string \<times> cell) list list" where
  "rows df = map (row_of df) [0..<index_len df]"

definition null_row :: "dataframe \<Rightarrow> (string \<times> cell) list" where
  "null_row df = map (\<lambda>n. (n, NaN)) (columns df)"

definition row_key :: "string list \<Rightarrow> (string \<times> cell) list \<Rightarrow> cell option list" where
  "row_key names r = map (map_of r) names"

definition spec_inner_join ::
  "string list \<Rightarrow> string list \<Rightarrow> (string \<times> cell) list list \<Rightarrow> (string \<times> cell) list list \<Rightarrow>
   (string \<times> cell) list list" where
  "spec_inner_join left_on right_on ls rs =
     concat (map (\<lambda>a. map (\<lambda>b. a @ b) (filter (\<lambda>b. row_key right_on b = row_key left_on a) rs)) ls)"

definition spec_left_join ::
  "string list \<Rightarrow> string list \<Rightarrow> (string \<times> cell) list \<Rightarrow> (string \<times> cell) list list \<Rightarrow>
   (string \<times> cell) list list \<Rightarrow> (string \<times> cell) list list" where
  "spec_left_join left_on right_on nulls ls rs =
     concat (map (\<lambda>a. if filter (\<lambda>b. row_key right_on b = row_key left_on a) rs = []
                       then [a @ nulls]
                       else map (\<lambda>b. a @ b) (filter (\<lambda>b. row_key right_on b = row_key left_on a) rs)) ls)"

definition spec_isin :: "string \<Rightarrow> string list \<Rightarrow> (string \<times> cell) list \<Rightarrow> bool" where
  "spec_isin name values r =
     (case map_of r name of None \<Rightarrow> False | Some x \<Rightarrow> x \<in> set (map Str values))"

definition spec_master_rows ::
  "string list \<Rightarrow> (string \<times> cell) list list \<Rightarrow> (string \<times> cell) list list \<Rightarrow>
   (string \<times> cell) list list \<Rightarrow> (string \<times> cell) list \<Rightarrow> (string \<times> cell) list list" where
  "spec_master_rows genes revel_rows clinvar_rows dosage_rows nulls =
     map (filter (\<lambda>(n, v). n \<notin> set [''CHROM'', ''POS'', ''REF'', ''ALT'', ''#Gene Symbol'', ''grch38_pos'']))
       (filter (spec_isin ''GENE'' genes)
          (spec_left_join [''GENE''] [''#Gene Symbol''] nulls
             (spec_inner_join [''chr'', ''hg19_pos'', ''ref'', ''alt''] [''CHROM'', ''POS'', ''REF'', ''ALT'']
                revel_rows clinvar_rows)
             dosage_rows))"

text \<open>Two names for the proofs: a joined table given its positions, and the row it has at a position.\<close>

definition joined :: "dataframe \<Rightarrow> dataframe \<Rightarrow> (nat \<times> nat option) list \<Rightarrow> dataframe" where
  "joined left right ix =
     \<lparr>index_len = length ix,
      cols = map (\<lambda>(n, c). (n, take_rows (map fst ix) c)) (cols left) @
             map (\<lambda>(n, c). (n, take_rows_opt (map snd ix) c)) (cols right)\<rparr>"

definition paired_row ::
  "dataframe \<Rightarrow> dataframe \<Rightarrow> nat \<times> nat option \<Rightarrow> (string \<times> cell) list" where
  "paired_row left right p =
     row_of left (fst p) @ (case snd p of None \<Rightarrow> null_row right | Some j \<Rightarrow> row_of right j)"

section \<open>Example tables\<close>

definition mc_table :: dataframe where
  "mc_table = \<lparr>index_len = 3, cols = [(''MC'',
      [Str ''SO:0001583|missense_variant'',
       Str ''SO:0001819|synonymous_variant,SO:0001623|5_prime_UTR_variant'',
       Str ''intergenic''])]\<rparr>"

definition conf_table :: dataframe where
  "conf_table = \<lparr>index_len = 2, cols = [(''CLNSIGCONF'', [Str ''Pathogenic(1)|Benign(1)'', NaN])]\<rparr>"

definition plain_table :: dataframe where
  "plain_table = \<lparr>index_len = 2, cols = [(''CHROM'', [Str ''1'', Str ''X'']), (''POS'', [Num 925952, Num 5])]\<rparr>"

definition gene_table :: dataframe where
  "gene_table = \<lparr>index_len = 2, cols = [(''GENEINFO'', [Str ''AGRN:375790'', NaN])]\<rparr>"

definition vcf_head :: "string list" where
  "vcf_head =
     [''##fileformat=VCFv4.1'' @ [newline],
      ''##INFO=<ID=ALLELEID,Number=1,Type=Integer,Description='' @ [dquote] @ ''the ClinVar Allele ID'' @ [dquote] @ ''>'' @ [newline],
      ''#CHROM'' @ [newline]]"

definition revel_ex :: dataframe where
  "revel_ex = \<lparr>index_len = 3, cols =
     [(''chr'', [Str ''17'', Str ''13'', Str ''1'']),
      (''hg19_pos'', [Num 41197701, Num 32890600, Num 100]),
      (''grch38_pos'', [Str ''43045684'', Str ''32316463'', Str ''90'']),
      (''ref'', [Str ''G'', Str ''A'', Str ''C'']),
      (''alt'', [Str ''A'', Str ''C'', Str ''T'']),
      (''REVEL'', [Str ''0.9'', Str ''0.1'', Str ''0.5''])]\<rparr>"

definition clinvar_ex :: dataframe where
  "clinvar_ex = \<lparr>index_len = 3, cols =
     [(''CHROM'', [Str ''13'', Str ''17'', Str ''2'']),
      (''POS'', [Num 32890600, Num 41197701, Num 7]),
      (''REF'', [Str ''A'', Str ''G'', Str ''T'']),
      (''ALT'', [Str ''C'', Str ''A'', Str ''G'']),
      (''GENE'', [Str ''BRCA2'', Str ''BRCA1'', Str ''XYZ''])]\<rparr>"

definition dosage_ex :: dataframe where
  "dosage_ex = \<lparr>index_len = 1, cols =
     [(''#Gene Symbol'', [Str ''BRCA2'']),
      (''Haploinsufficiency Score'', [Num 3])]\<rparr>"

section \<open>Facts about splitting and the decoder\<close>

lemma split_str_nonempty: "split_str sep s \<noteq> []"
  by (induction s) (auto split: list.splits)

lemma split_str_no_sep: "sep \<notin> set s \<Longrightarrow> split_str sep s = [s]"
  by (induction s) auto

lemma split_str_append:
  "sep \<notin> set a \<Longrightarrow> split_str sep (a @ sep # b) = a # split_str sep b"
  by (induction a) auto

lemma split_str_join:
  "ps \<noteq> [] \<Longrightarrow> \<forall>p\<in>set ps. sep \<notin> set p \<Longrightarrow> split_str sep (join_str sep ps) = ps"
  by (induction sep ps rule: join_str.induct) (auto simp: split_str_no_sep split_str_append)

lemma split_str_first:
  "split_str sep s =
     takeWhile (\<lambda>c. c \<noteq> sep) s #
       (if sep \<in> set s then split_str sep (tl (dropWhile (\<lambda>c. c \<noteq> sep) s)) else [])"
  by (induction s) (auto split: list.splits)

lemma split_str_parts_no_sep: "p \<in> set (split_str sep s) \<Longrightarrow> sep \<notin> set p"
  by (induction s arbitrary: p) (auto split: if_splits list.splits)

lemma split_str_parts_subset: "p \<in> set (split_str sep s) \<Longrightarrow> x \<in> set p \<Longrightarrow> x \<in> set s"
  by (induction s arbitrary: p) (fastforce split: if_splits list.splits)+

lemma getitem_0: "getitem (x # xs) 0 = Inr x"
  by simp

lemma getitem_1: "getitem (x # y # xs) 1 = Inr y"
  by simp


lemma split_eq_fields:
  assumes "CHR ''='' \<in> set p"
  shows "\<exists>rest. split_str (CHR ''='') p = piece_key p # piece_value p # rest"
proof -
  let ?r = "tl (dropWhile (\<lambda>c. c \<noteq> CHR ''='') p)"
  have "split_str (CHR ''='') p = piece_key p # split_str (CHR ''='') ?r"
    using assms by (subst split_str_first) (simp add: piece_key_def)
  moreover have "\<exists>rest. split_str (CHR ''='') ?r = piece_value p # rest"
    by (subst split_str_first) (simp add: piece_value_def)
  ultimately show ?thesis by auto
qed

lemma info_loop_fields:
  "\<forall>p\<in>set ps. CHR ''='' \<in> set p \<Longrightarrow>
   info_loop d ps = Inr (foldl (\<lambda>d p. dict_setitem d (piece_key p) (piece_value p)) d ps)"
proof (induction ps arbitrary: d)
  case Nil
  then show ?case by simp
next
  case (Cons p ps)
  from Cons.prems have "CHR ''='' \<in> set p" by simp
  then obtain rest where "split_str (CHR ''='') p = piece_key p # piece_value p # rest"
    using split_eq_fields by blast
  then show ?case using Cons by (simp del: getitem.simps add: getitem_0 getitem_1)
qed


lemma dict_setitem_keys:
  "map fst (dict_setitem d k v) = (if k \<in> set (map fst d) then map fst d else map fst d @ [k])"
  by (induction d) (force split: if_splits)+

lemma dict_setitem_set: "set (dict_setitem d k v) \<subseteq> insert (k, v) (set d)"
  by (induction d) (auto split: if_splits)

lemma dict_setitem_fresh: "k \<notin> set (map fst d) \<Longrightarrow> dict_setitem d k v = d @ [(k, v)]"
  by (induction d) auto

lemma dict_setitem_nonempty: "dict_setitem d k v \<noteq> []"
  by (cases d) (auto split: if_splits)

lemma dict_ok_setitem: "dict_ok d \<Longrightarrow> plain k \<Longrightarrow> plain v \<Longrightarrow> dict_ok (dict_setitem d k v)"
  unfolding dict_ok_def using dict_setitem_set [of d k v]
  by (auto simp: dict_setitem_keys)

lemma getitem_in_set: "getitem xs i = Inr x \<Longrightarrow> x \<in> set xs"
  by (auto split: if_splits)

lemma split_eq_plain:
  assumes "w \<in> set (split_str (CHR ''='') p)" and "CHR '';'' \<notin> set p"
  shows "plain w"
  using assms split_str_parts_no_sep [of w "CHR ''=''" p] split_str_parts_subset [of w "CHR ''=''" p "CHR '';''"]
  by (auto simp: plain_def)

lemma info_loop_ok:
  "info_loop acc ps = Inr d \<Longrightarrow> dict_ok acc \<Longrightarrow> \<forall>p\<in>set ps. CHR '';'' \<notin> set p \<Longrightarrow> dict_ok d"
proof (induction ps arbitrary: acc)
  case Nil
  then show ?case by simp
next
  case (Cons p ps)
  from Cons.prems(1) obtain k v where
    v: "getitem (split_str (CHR ''='') p) 1 = Inr v" and
    k: "getitem (split_str (CHR ''='') p) 0 = Inr k" and
    rest: "info_loop (dict_setitem acc k v) ps = Inr d"
    by (auto simp del: getitem.simps split: sum.splits)
  from Cons.prems(3) have p: "CHR '';'' \<notin> set p" by simp
  have "plain k" "plain v"
    using k v p by (blast intro: split_eq_plain getitem_in_set)+
  with Cons.prems(2) have "dict_ok (dict_setitem acc k v)"
    by (rule dict_ok_setitem)
  with Cons.IH rest Cons.prems(3) show ?case by simp
qed

lemma info_loop_nonempty:
  "info_loop acc ps = Inr d \<Longrightarrow> acc \<noteq> [] \<or> ps \<noteq> [] \<Longrightarrow> d \<noteq> []"
proof (induction ps arbitrary: acc)
  case Nil
  then show ?case by simp
next
  case (Cons p ps)
  from Cons.prems(1) obtain k v where "info_loop (dict_setitem acc k v) ps = Inr d"
    by (auto simp del: getitem.simps split: sum.splits)
  with Cons.IH show ?case by (simp add: dict_setitem_nonempty)
qed

lemma split_piece:
  "plain k \<Longrightarrow> plain v \<Longrightarrow> split_str (CHR ''='') (k @ CHR ''='' # v) = [k, v]"
  by (simp add: plain_def split_str_append split_str_no_sep)

lemma info_loop_pieces:
  "distinct (map fst (acc @ d)) \<Longrightarrow> \<forall>(k, v)\<in>set d. plain k \<and> plain v \<Longrightarrow>
   info_loop acc (map (\<lambda>(k, v). k @ CHR ''='' # v) d) = Inr (acc @ d)"
proof (induction d arbitrary: acc)
  case Nil
  then show ?case by simp
next
  case (Cons kv d)
  obtain k v where kv: "kv = (k, v)" by (cases kv)
  with Cons.prems have pl: "plain k" "plain v" and fresh: "k \<notin> set (map fst acc)"
    by auto
  have "distinct (map fst ((acc @ [(k, v)]) @ d))"
    using Cons.prems(1) kv by auto
  moreover have "\<forall>(k, v)\<in>set d. plain k \<and> plain v"
    using Cons.prems(2) by simp
  ultimately have "info_loop (acc @ [(k, v)]) (map (\<lambda>(k, v). k @ CHR ''='' # v) d) = Inr ((acc @ [(k, v)]) @ d)"
    by (rule Cons.IH)
  then show ?case
    using pl fresh kv by (simp add: split_piece dict_setitem_fresh)
qed

lemma split_encode:
  assumes "dict_ok d" and "d \<noteq> []"
  shows "split_str (CHR '';'') (encode_info_dict d) = map (\<lambda>(k, v). k @ CHR ''='' # v) d"
  unfolding encode_info_dict_def
proof (rule split_str_join)
  show "map (\<lambda>(k, v). k @ CHR ''='' # v) d \<noteq> []" using assms(2) by simp
  show "\<forall>p\<in>set (map (\<lambda>(k, v). k @ CHR ''='' # v) d). CHR '';'' \<notin> set p"
    using assms(1) by (auto simp: dict_ok_def plain_def)
qed

section \<open>Facts about the meta-information parser\<close>

lemma info_prefix: "startswith l ''##INFO='' \<Longrightarrow> startswith l ''##''"
  by (auto simp: startswith_def prefix_def)

lemma meta_loop_info:
  "startswith l ''##INFO='' \<Longrightarrow>
   meta_loop m n (l # ls) =
     (case info_entry l of
        None \<Rightarrow> Inl AttributeError
      | Some (k, d) \<Rightarrow> meta_loop (dict_setitem m k d) (n + 1) ls)"
  by (simp add: info_prefix info_entry_def split: option.splits)

lemma meta_loop_other:
  "\<not> startswith l ''##INFO='' \<Longrightarrow>
   meta_loop m n (l # ls) = meta_loop m (if startswith l ''##'' then n + 1 else n) ls"
  by simp

lemma meta_loop_eq:
  "meta_loop m n lines =
     (if list_all (\<lambda>l. info_entry l \<noteq> None) (info_lines lines)
      then Inr (foldl (\<lambda>m (k, d). dict_setitem m k d) m (List.map_filter info_entry (info_lines lines)),
                n + int (length (meta_lines lines)))
      else Inl AttributeError)"
proof (induction lines arbitrary: m n)
  case Nil
  then show ?case by (simp add: info_lines_def meta_lines_def)
next
  case (Cons l lines)
  show ?case
  proof (cases "startswith l ''##INFO=''")
    case True
    then have "info_lines (l # lines) = l # info_lines lines"
      and "meta_lines (l # lines) = l # meta_lines lines"
      by (simp_all add: info_lines_def meta_lines_def info_prefix)
    then show ?thesis
      using True by (cases "info_entry l") (auto simp: meta_loop_info Cons.IH simp del: meta_loop.simps)
  next
    case False
    then have "info_lines (l # lines) = info_lines lines"
      by (simp add: info_lines_def)
    then show ?thesis
      using False by (simp add: meta_loop_other Cons.IH meta_lines_def del: meta_loop.simps)
  qed
qed

section \<open>Facts about tables and the derivations\<close>

lemma series_apply_total:
  "\<forall>x\<in>set xs. f x = Inr (g x) \<Longrightarrow> series_apply f xs = Inr (map g xs)"
  by (induction xs) auto

lemma map_of_dict_setitem: "map_of (dict_setitem d k v) = (map_of d)(k \<mapsto> v)"
  by (induction d) (auto split: if_splits)

lemma getcol_setcol: "getcol (setcol df name xs) name' = (if name' = name then Inr xs else getcol df name')"
  by (simp add: getcol_def setcol_def map_of_dict_setitem)

lemma columns_map_of: "(name \<in> set (columns df)) = (map_of (cols df) name \<noteq> None)"
  by (simp add: columns_def map_of_eq_None_iff)

lemma getcol_columns: "(name \<in> set (columns df)) = (\<exists>xs. getcol df name = Inr xs)"
  by (auto simp: getcol_def columns_map_of split: option.splits)

lemma length_split_str: "length (split_str sep s) = Suc (count_list s sep)"
  by (induction s) (auto split: list.splits)

lemma gene_symbol_eq: "gene_symbol x = Inr (Str (takeWhile (\<lambda>c. c \<noteq> CHR '':'') (astype_str x)))"
  unfolding gene_symbol_def by (subst split_str_first) simp

lemma mol_conseq_one:
  "CHR ''|'' \<notin> set a \<Longrightarrow> CHR ''|'' \<notin> set b \<Longrightarrow> astype_str x = a @ CHR ''|'' # b \<Longrightarrow>
   mol_conseq x = Inr (Str b)"
  by (simp add: mol_conseq_def split_str_append split_str_no_sep)

lemma mol_conseq_other:
  "count_list (astype_str x) (CHR ''|'') \<noteq> 1 \<Longrightarrow> mol_conseq x = Inr (Str ''uncertain'')"
  by (simp add: mol_conseq_def length_split_str)

lemma mol_conseq_total: "\<exists>y. mol_conseq x = Inr y"
  by (cases "split_str (CHR ''|'') (astype_str x)" rule: rev_cases)
     (auto simp: mol_conseq_def split_str_nonempty)

lemma series_apply_nth:
  "series_apply f xs = Inr ys \<Longrightarrow> length ys = length xs \<and> (\<forall>i<length xs. f (xs ! i) = Inr (ys ! i))"
proof (induction xs arbitrary: ys)
  case Nil
  then show ?case by simp
next
  case (Cons x xs)
  from Cons.prems obtain y ys' where y: "f x = Inr y" and ys': "series_apply f xs = Inr ys'"
    and ys: "ys = y # ys'"
    by (auto split: sum.splits)
  from Cons.IH [OF ys'] y ys show ?case
    by (auto simp: nth_Cons split: nat.splits)
qed

lemma series_apply_Inr:
  "\<forall>x\<in>set xs. \<exists>y. f x = Inr y \<Longrightarrow> \<exists>ys. series_apply f xs = Inr ys"
  by (induction xs) auto

lemma count_one_rest:
  "count_list s c = 1 \<Longrightarrow> c \<notin> set (tl (dropWhile (\<lambda>x. x \<noteq> c) s))"
  by (induction s) (auto simp: count_list_0_iff split: if_splits)

lemma count_one_split:
  assumes "count_list s c = 1"
  shows "s = takeWhile (\<lambda>x. x \<noteq> c) s @ c # tl (dropWhile (\<lambda>x. x \<noteq> c) s)"
proof -
  have "c \<in> set s"
    using assms count_list_0_iff [of s c] by auto
  then have "dropWhile (\<lambda>x. x \<noteq> c) s \<noteq> []" by auto
  then have "dropWhile (\<lambda>x. x \<noteq> c) s = c # tl (dropWhile (\<lambda>x. x \<noteq> c) s)"
    using hd_dropWhile [of "\<lambda>x. x \<noteq> c" s] by (cases "dropWhile (\<lambda>x. x \<noteq> c) s") auto
  then show ?thesis
    using takeWhile_dropWhile_id [of "\<lambda>x. x \<noteq> c" s] by simp
qed

lemma mol_conseq_count_one:
  assumes "count_list (astype_str x) (CHR ''|'') = 1"
  shows "mol_conseq x = Inr (Str (tl (dropWhile (\<lambda>c. c \<noteq> CHR ''|'') (astype_str x))))"
proof (rule mol_conseq_one)
  show "CHR ''|'' \<notin> set (takeWhile (\<lambda>c. c \<noteq> CHR ''|'') (astype_str x))"
    by (auto dest: set_takeWhileD)
  show "CHR ''|'' \<notin> set (tl (dropWhile (\<lambda>c. c \<noteq> CHR ''|'') (astype_str x)))"
    using assms by (rule count_one_rest)
  show "astype_str x = takeWhile (\<lambda>c. c \<noteq> CHR ''|'') (astype_str x) @ CHR ''|'' #
      tl (dropWhile (\<lambda>c. c \<noteq> CHR ''|'') (astype_str x))"
    using assms by (rule count_one_split)
qed

lemma notna_eq: "notna = (\<lambda>x. Boolean (x \<noteq> NaN))"
proof
  fix x show "notna x = Boolean (x \<noteq> NaN)"
    by (cases x) simp_all
qed

section \<open>Facts about the assembler\<close>

lemma map_of_row_of: "map_of (row_of df i) n = map_option (\<lambda>c. c ! i) (map_of (cols df) n)"
  unfolding row_of_def by (induction "cols df" arbitrary: df) (simp_all add: map_of_map [unfolded o_def] split_beta)

lemma getcols_row_key:
  "getcols df names = Inr ks \<Longrightarrow> row_key names (row_of df i) = map Some (key_at ks i)"
proof (induction names arbitrary: ks)
  case Nil
  then show ?case by (simp add: row_key_def key_at_def)
next
  case (Cons n names)
  from Cons.prems obtain c cs where c: "getcol df n = Inr c" and cs: "getcols df names = Inr cs"
    and ks: "ks = c # cs"
    by (auto split: sum.splits)
  from c have "map_of (cols df) n = Some c"
    by (simp add: getcol_def split: option.splits)
  with Cons.IH [OF cs] ks show ?case
    by (simp add: row_key_def key_at_def map_of_row_of)
qed

lemma key_match:
  assumes "getcols left lon = Inr lk" and "getcols right ron = Inr rk"
  shows "(row_key ron (row_of right j) = row_key lon (row_of left i)) = (key_at rk j = key_at lk i)"
  using getcols_row_key [OF assms(1), of i] getcols_row_key [OF assms(2), of j]
  by (simp add: inj_map_eq_map)

lemma with_suffix_id:
  "set (map fst cs) \<inter> set others = {} \<Longrightarrow>
   map (\<lambda>(n, c). (with_suffix sfx others n, f c)) cs = map (\<lambda>(n, c). (n, f c)) cs"
  by (induction cs) (auto simp: with_suffix_def)

lemma map_by_index: "map f xs = map (\<lambda>p. f (xs ! p)) [0..<length xs]"
proof -
  have "map f xs = map f (map (\<lambda>p. xs ! p) [0..<length xs])"
    by (simp only: map_nth)
  then show ?thesis by (simp add: o_def)
qed

lemma rows_taken:
  "rows \<lparr>index_len = length ix,
         cols = map (\<lambda>(n, c). (n, take_rows (map fst ix) c)) (cols left) @
                map (\<lambda>(n, c). (n, take_rows_opt (map snd ix) c)) (cols right)\<rparr> =
   map (paired_row left right) ix"
proof -
  have "row_of \<lparr>index_len = length ix,
         cols = map (\<lambda>(n, c). (n, take_rows (map fst ix) c)) (cols left) @
                map (\<lambda>(n, c). (n, take_rows_opt (map snd ix) c)) (cols right)\<rparr> p =
        paired_row left right (ix ! p)" if "p < length ix" for p
    using that
    by (cases "snd (ix ! p)")
       (simp_all add: row_of_def paired_row_def take_rows_def take_rows_opt_def null_row_def
          columns_def split_beta)
  then show ?thesis
    unfolding rows_def by (subst (2) map_by_index) simp
qed

lemma paired_inner:
  assumes "getcols left lon = Inr lk" and "getcols right ron = Inr rk"
  shows "map (paired_row left right) (join_indexers HowInner (index_len left) (index_len right) lk rk) =
         spec_inner_join lon ron (rows left) (rows right)"
proof -
  have "map (\<lambda>x. row_of left i @ row_of right x)
          (filter (\<lambda>j. key_at rk j = key_at lk i) [0..<index_len right]) =
        map ((@) (row_of left i))
          (filter (\<lambda>b. row_key ron b = row_key lon (row_of left i)) (rows right))" for i
    by (simp add: rows_def filter_map o_def key_match [OF assms])
  then show ?thesis
    by (simp add: join_indexers_def spec_inner_join_def map_concat o_def paired_row_def rows_def)
qed

lemma paired_left:
  assumes "getcols left lon = Inr lk" and "getcols right ron = Inr rk"
  shows "map (paired_row left right) (join_indexers HowLeft (index_len left) (index_len right) lk rk) =
         spec_left_join lon ron (null_row right) (rows left) (rows right)"
proof -
  have flt: "filter (\<lambda>b. row_key ron b = row_key lon (row_of left i)) (rows right) =
        map (row_of right) (filter (\<lambda>j. key_at rk j = key_at lk i) [0..<index_len right])" for i
    by (simp add: rows_def filter_map o_def key_match [OF assms])
  have step: "map (paired_row left right)
          (if HowLeft = HowLeft \<and> filter (\<lambda>j. key_at rk j = key_at lk i) [0..<index_len right] = []
           then [(i, None)]
           else map (\<lambda>j. (i, Some j)) (filter (\<lambda>j. key_at rk j = key_at lk i) [0..<index_len right])) =
        (if filter (\<lambda>b. row_key ron b = row_key lon (row_of left i)) (rows right) = []
         then [row_of left i @ null_row right]
         else map (\<lambda>b. row_of left i @ b)
                (filter (\<lambda>b. row_key ron b = row_key lon (row_of left i)) (rows right)))" for i
    unfolding flt by (simp add: paired_row_def o_def)
  have "map (paired_row left right) (join_indexers HowLeft (index_len left) (index_len right) lk rk) =
        concat (map (\<lambda>i. map (paired_row left right)
          (if HowLeft = HowLeft \<and> filter (\<lambda>j. key_at rk j = key_at lk i) [0..<index_len right] = []
           then [(i, None)]
           else map (\<lambda>j. (i, Some j)) (filter (\<lambda>j. key_at rk j = key_at lk i) [0..<index_len right])))
          [0..<index_len left])"
    unfolding join_indexers_def map_concat by (simp only: map_map o_def)
  also have "\<dots> = spec_left_join lon ron (null_row right) (rows left) (rows right)"
    unfolding step spec_left_join_def by (simp add: rows_def [of left] o_def)
  finally show ?thesis .
qed

lemma merge_joined:
  assumes "getcols left lon = Inr lk" and "getcols right ron = Inr rk"
    and "set (columns left) \<inter> set (columns right) = {}"
  shows "merge left right h lon ron =
         Inr (joined left right (join_indexers h (index_len left) (index_len right) lk rk))"
proof -
  have "set (map fst (cols left)) \<inter> set (columns right) = {}"
    and "set (map fst (cols right)) \<inter> set (columns left) = {}"
    using assms(3) by (auto simp: columns_def)
  then show ?thesis
    using assms(1,2) by (simp add: merge_def joined_def Let_def with_suffix_id)
qed

lemma columns_joined: "columns (joined left right ix) = columns left @ columns right"
  by (simp add: columns_def joined_def split_beta o_def)

lemma rows_joined: "rows (joined left right ix) = map (paired_row left right) ix"
  unfolding joined_def by (rule rows_taken)

lemma index_len_joined: "index_len (joined left right ix) = length ix"
  by (simp add: joined_def)

lemma getcol_joined_length: "getcol (joined left right ix) n = Inr c \<Longrightarrow> length c = length ix"
proof -
  assume "getcol (joined left right ix) n = Inr c"
  then have "map_of (cols (joined left right ix)) n = Some c"
    by (simp add: getcol_def split: option.splits)
  then have "(n, c) \<in> set (cols (joined left right ix))"
    by (rule map_of_SomeD)
  then show ?thesis
    by (auto simp: joined_def take_rows_def take_rows_opt_def)
qed

lemma getcols_present: "set names \<subseteq> set (columns df) \<Longrightarrow> \<exists>ks. getcols df names = Inr ks"
proof (induction names)
  case Nil
  then show ?case by simp
next
  case (Cons n names)
  then obtain ks where "getcols df names = Inr ks" by auto
  moreover from Cons.prems obtain c where "getcol df n = Inr c"
    by (auto simp: columns_map_of getcol_def)
  ultimately show ?case by simp
qed

lemma rows_boolean_index:
  assumes "getcol df name = Inr c" and "length c = index_len df"
  shows "rows (boolean_index df (isin c values)) = filter (spec_isin name values) (rows df)"
proof -
  let ?idx = "filter (\<lambda>i. isin c values ! i) [0..<index_len df]"
  have col: "map_of (cols df) name = Some c"
    using assms(1) by (simp add: getcol_def split: option.splits)
  have "row_of (boolean_index df (isin c values)) p = row_of df (?idx ! p)" if "p < length ?idx" for p
    using that by (simp add: row_of_def boolean_index_def Let_def take_rows_def split_beta)
  then have "rows (boolean_index df (isin c values)) = map (row_of df) ?idx"
    unfolding rows_def by (subst (2) map_by_index) (simp add: boolean_index_def Let_def)
  moreover have "filter (spec_isin name values) (rows df) = map (row_of df) ?idx"
    unfolding rows_def filter_map
    by (rule arg_cong [where f = "map (row_of df)"], rule filter_cong)
       (simp_all add: spec_isin_def map_of_row_of col isin_def assms(2))
  ultimately show ?thesis by simp
qed

lemma columns_boolean_index: "columns (boolean_index df keep) = columns df"
  by (simp add: boolean_index_def Let_def columns_def split_beta o_def)

lemma drop_columns_rows:
  assumes "set labels \<subseteq> set (columns df)"
  shows "\<exists>d. drop_columns df labels = Inr d \<and>
           columns d = filter (\<lambda>n. n \<notin> set labels) (columns df) \<and>
           rows d = map (filter (\<lambda>(n, v). n \<notin> set labels)) (rows df)"
proof -
  have "row_of (df\<lparr>cols := filter (\<lambda>(n, c). n \<notin> set labels) (cols df)\<rparr>) i =
        filter (\<lambda>(n, v). n \<notin> set labels) (row_of df i)" for i
    by (simp add: row_of_def filter_map o_def case_prod_unfold)
  then show ?thesis
    using assms by (simp add: drop_columns_def rows_def columns_def filter_map o_def case_prod_unfold)
qed

lemma set_spec_inner_join:
  "set (spec_inner_join lon ron ls rs) =
     {a @ b | a b. a \<in> set ls \<and> b \<in> set rs \<and> row_key ron b = row_key lon a}"
  by (auto simp: spec_inner_join_def)

lemma set_spec_left_join:
  "set (spec_left_join lon ron nulls ls rs) =
     {a @ d | a d. a \<in> set ls \<and>
        (d \<in> set rs \<and> row_key ron d = row_key lon a \<or>
         (\<forall>b\<in>set rs. row_key ron b \<noteq> row_key lon a) \<and> d = nulls)}"
  by (auto simp: spec_left_join_def filter_empty_conv split: if_splits)

lemma set_spec_master_rows:
  "(r \<in> set (spec_master_rows genes ls rs ds nulls)) =
     (\<exists>a b d. a \<in> set ls \<and> b \<in> set rs \<and>
        row_key [''CHROM'', ''POS'', ''REF'', ''ALT''] b = row_key [''chr'', ''hg19_pos'', ''ref'', ''alt''] a \<and>
        (d \<in> set ds \<and> row_key [''#Gene Symbol''] d = row_key [''GENE''] (a @ b) \<or>
         (\<forall>e\<in>set ds. row_key [''#Gene Symbol''] e \<noteq> row_key [''GENE''] (a @ b)) \<and> d = nulls) \<and>
        spec_isin ''GENE'' genes (a @ b @ d) \<and>
        r = filter (\<lambda>(n, v). n \<notin> set [''CHROM'', ''POS'', ''REF'', ''ALT'', ''#Gene Symbol'', ''grch38_pos''])
              (a @ b @ d))"
  (is "?lhs = ?rhs")
proof
  let ?K = "filter (\<lambda>(n, v). n \<notin> set [''CHROM'', ''POS'', ''REF'', ''ALT'', ''#Gene Symbol'', ''grch38_pos''])"
  let ?inner = "spec_inner_join [''chr'', ''hg19_pos'', ''ref'', ''alt''] [''CHROM'', ''POS'', ''REF'', ''ALT''] ls rs"
  let ?left = "spec_left_join [''GENE''] [''#Gene Symbol''] nulls ?inner ds"
  {
    assume ?lhs
    then obtain x where x: "x \<in> set ?left" and isin: "spec_isin ''GENE'' genes x" and r: "r = ?K x"
      unfolding spec_master_rows_def by (auto simp del: filter.simps filter_append)
    from x obtain ab d where xd: "x = ab @ d" and ab: "ab \<in> set ?inner"
      and d: "d \<in> set ds \<and> row_key [''#Gene Symbol''] d = row_key [''GENE''] ab \<or>
              (\<forall>e\<in>set ds. row_key [''#Gene Symbol''] e \<noteq> row_key [''GENE''] ab) \<and> d = nulls"
      unfolding set_spec_left_join by blast
    from ab obtain a b where "ab = a @ b" "a \<in> set ls" "b \<in> set rs"
      "row_key [''CHROM'', ''POS'', ''REF'', ''ALT''] b = row_key [''chr'', ''hg19_pos'', ''ref'', ''alt''] a"
      unfolding set_spec_inner_join by blast
    with xd d isin r show ?rhs
      by (intro exI [of _ a] exI [of _ b] exI [of _ d]) (simp del: filter.simps filter_append)
  }
  {
    assume ?rhs
    then obtain a b d where a: "a \<in> set ls" and b: "b \<in> set rs"
      and k: "row_key [''CHROM'', ''POS'', ''REF'', ''ALT''] b = row_key [''chr'', ''hg19_pos'', ''ref'', ''alt''] a"
      and d: "d \<in> set ds \<and> row_key [''#Gene Symbol''] d = row_key [''GENE''] (a @ b) \<or>
              (\<forall>e\<in>set ds. row_key [''#Gene Symbol''] e \<noteq> row_key [''GENE''] (a @ b)) \<and> d = nulls"
      and isin: "spec_isin ''GENE'' genes (a @ b @ d)"
      and r: "r = ?K (a @ b @ d)"
      by blast
    from a b k have "a @ b \<in> set ?inner"
      unfolding set_spec_inner_join by blast
    with d have "(a @ b) @ d \<in> set ?left"
      unfolding set_spec_left_join by blast
    with isin r show ?lhs
      unfolding spec_master_rows_def by (auto simp del: filter.simps filter_append)
  }
qed

lemma master_df_rows:
  assumes revel_cols: "set [''chr'', ''hg19_pos'', ''ref'', ''alt'', ''grch38_pos''] \<subseteq> set (columns revel)"
    and clinvar_cols: "set [''CHROM'', ''POS'', ''REF'', ''ALT'', ''GENE''] \<subseteq> set (columns clinvar)"
    and dosage_cols: "''#Gene Symbol'' \<in> set (columns dosage)"
    and disj1: "set (columns revel) \<inter> set (columns clinvar) = {}"
    and disj2: "(set (columns revel) \<union> set (columns clinvar)) \<inter> set (columns dosage) = {}"
  shows "\<exists>m. master_df genes revel clinvar dosage = Inr m \<and>
           columns m =
             filter (\<lambda>n. n \<notin> set [''CHROM'', ''POS'', ''REF'', ''ALT'', ''#Gene Symbol'', ''grch38_pos''])
               (columns revel @ columns clinvar @ columns dosage) \<and>
           rows m = spec_master_rows genes (rows revel) (rows clinvar) (rows dosage) (null_row dosage)"
proof -
  let ?lon = "[''chr'', ''hg19_pos'', ''ref'', ''alt'']"
  let ?ron = "[''CHROM'', ''POS'', ''REF'', ''ALT'']"
  let ?dropped = "[''CHROM'', ''POS'', ''REF'', ''ALT'', ''#Gene Symbol'', ''grch38_pos'']"
  from revel_cols obtain lk where lk: "getcols revel ?lon = Inr lk"
    using getcols_present [of ?lon revel] by auto
  from clinvar_cols obtain rk where rk: "getcols clinvar ?ron = Inr rk"
    using getcols_present [of ?ron clinvar] by auto
  define m1 where "m1 = joined revel clinvar (join_indexers HowInner (index_len revel) (index_len clinvar) lk rk)"
  have merge1: "merge revel clinvar HowInner ?lon ?ron = Inr m1"
    unfolding m1_def using lk rk disj1 by (rule merge_joined)
  have cols1: "columns m1 = columns revel @ columns clinvar"
    by (simp add: m1_def columns_joined)
  have rows1: "rows m1 = spec_inner_join ?lon ?ron (rows revel) (rows clinvar)"
    unfolding m1_def rows_joined using lk rk by (rule paired_inner)
  from clinvar_cols cols1 obtain gk where gk: "getcols m1 [''GENE''] = Inr gk"
    using getcols_present [of "[''GENE'']" m1] by auto
  from dosage_cols obtain dk where dk: "getcols dosage [''#Gene Symbol''] = Inr dk"
    using getcols_present [of "[''#Gene Symbol'']" dosage] by auto
  define ix2 where "ix2 = join_indexers HowLeft (index_len m1) (index_len dosage) gk dk"
  define m2 where "m2 = joined m1 dosage ix2"
  have "set (columns m1) \<inter> set (columns dosage) = {}"
    using disj2 by (simp add: cols1)
  with gk dk have merge2: "merge m1 dosage HowLeft [''GENE''] [''#Gene Symbol''] = Inr m2"
    unfolding m2_def ix2_def by (rule merge_joined)
  have cols2: "columns m2 = columns revel @ columns clinvar @ columns dosage"
    by (simp add: m2_def columns_joined cols1)
  have rows2: "rows m2 = spec_left_join [''GENE''] [''#Gene Symbol''] (null_row dosage) (rows m1) (rows dosage)"
    unfolding m2_def rows_joined ix2_def using gk dk by (rule paired_left)
  from clinvar_cols cols2 obtain gene where gene: "getcol m2 ''GENE'' = Inr gene"
    using getcols_present [of "[''GENE'']" m2] by (auto split: sum.splits)
  have len: "length gene = index_len m2"
    using gene by (simp add: m2_def getcol_joined_length index_len_joined)
  let ?f = "boolean_index m2 (isin gene genes)"
  have rowsf: "rows ?f = filter (spec_isin ''GENE'' genes) (rows m2)"
    using gene len by (rule rows_boolean_index)
  have colsf: "columns ?f = columns m2"
    by (rule columns_boolean_index)
  have "set ?dropped \<subseteq> set (columns ?f)"
    using revel_cols clinvar_cols dosage_cols by (auto simp: colsf cols2)
  then obtain d where d: "drop_columns ?f ?dropped = Inr d"
    and cd: "columns d = filter (\<lambda>n. n \<notin> set ?dropped) (columns ?f)"
    and rd: "rows d = map (filter (\<lambda>(n, v). n \<notin> set ?dropped)) (rows ?f)"
    using drop_columns_rows [of ?dropped ?f] by blast
  have "master_df genes revel clinvar dosage = Inr d"
    by (simp add: master_df_def merge1 merge2 gene d)
  moreover have "columns d = filter (\<lambda>n. n \<notin> set ?dropped) (columns revel @ columns clinvar @ columns dosage)"
    by (simp only: cd colsf cols2)
  moreover have "rows d = spec_master_rows genes (rows revel) (rows clinvar) (rows dosage) (null_row dosage)"
    by (simp only: rd rowsf rows2 rows1 spec_master_rows_def)
  ultimately show ?thesis by blast
qed

section \<open>Claims\<close>

text \<open>
  C1, as the code has it.  For every packed annotation string made of the pieces
  \<open>ps\<close> joined with \<open>;\<close>, each piece free of \<open>;\<close> and holding at least one \<open>=\<close>, the
  decoder returns the mapping obtained by assigning, piece after piece, the text
  before the first \<open>=\<close> to the text between the first \<open>=\<close> and the second; that value
  is the whole remainder of the piece exactly when the remainder holds no further
  \<open>=\<close>.  The piece is split at every \<open>=\<close>, not at the first only.
\<close>

theorem convert_info_string_to_dict_fields:
  assumes "ps \<noteq> []"
    and "\<forall>p\<in>set ps. CHR '';'' \<notin> set p \<and> CHR ''='' \<in> set p"
  shows "convert_info_string_to_dict (join_str (CHR '';'') ps) =
           Inr (foldl (\<lambda>d p. dict_setitem d (piece_key p) (piece_value p)) [] ps) \<and>
         list_all (\<lambda>p. (piece_value p = tl (dropWhile (\<lambda>c. c \<noteq> CHR ''='') p)) =
                        (CHR ''='' \<notin> set (tl (dropWhile (\<lambda>c. c \<noteq> CHR ''='') p)))) ps"
proof
  have "split_str (CHR '';'') (join_str (CHR '';'') ps) = ps"
    using assms by (intro split_str_join) auto
  moreover have "\<forall>p\<in>set ps. CHR ''='' \<in> set p"
    using assms(2) by simp
  ultimately show "convert_info_string_to_dict (join_str (CHR '';'') ps) =
      Inr (foldl (\<lambda>d p. dict_setitem d (piece_key p) (piece_value p)) [] ps)"
    by (simp add: convert_info_string_to_dict_def info_loop_fields)
next
  show "list_all (\<lambda>p. (piece_value p = tl (dropWhile (\<lambda>c. c \<noteq> CHR ''='') p)) =
                        (CHR ''='' \<notin> set (tl (dropWhile (\<lambda>c. c \<noteq> CHR ''='') p)))) ps"
    unfolding list_all_iff piece_value_def by auto
qed

theorem convert_info_string_to_dict_fields_witness:
  "convert_info_string_to_dict ''A=B=C;D=1;A=x=y'' = Inr [(''A'', ''x''), (''D'', ''1'')]"
  using convert_info_string_to_dict_fields [of "[''A=B=C'', ''D=1'', ''A=x=y'']"]
  by (simp add: piece_key_def piece_value_def)

text \<open>
  C1, as the claim states it, fails: the piece \<open>A=B=C\<close> maps the key \<open>A\<close> to \<open>B\<close>, not to
  the raw remainder \<open>B=C\<close>.
\<close>

theorem convert_info_string_to_dict_remainder_counterexample:
  "convert_info_string_to_dict ''A=B=C'' = Inr [(''A'', ''B'')] \<and>
   convert_info_string_to_dict ''A=B=C'' \<noteq> Inr [(''A'', ''B=C'')]"
  by (simp add: convert_info_string_to_dict_def)

text \<open>
  C2.  On a packed annotation string whose last piece is a bare key, here
  \<open>ALLELEID=626482;DB\<close>, the decoder raises \<open>IndexError\<close>: it returns no mapping.
\<close>

theorem convert_info_string_to_dict_bare_key:
  "convert_info_string_to_dict ''ALLELEID=626482;DB'' = Inl IndexError"
  by (simp add: convert_info_string_to_dict_def)

text \<open>
  C3, as the code has it.  \<open>parse_vcf_meta_info\<close> raises \<open>AttributeError\<close> as soon as
  a line that starts with \<open>##INFO=\<close> lacks a match of \<open>ID=(\w+)\<close> or of
  \<open>Description="(.*)"\<close>.  When every such line matches both, it returns the map of
  their entries, a later line overwriting an earlier one with the same key, and the
  number of lines that start with \<open>##\<close>.
\<close>

theorem parse_vcf_meta_info_shape:
  "parse_vcf_meta_info lines =
     (if list_all (\<lambda>l. info_entry l \<noteq> None) (info_lines lines)
      then Inr (foldl (\<lambda>m (k, d). dict_setitem m k d) [] (List.map_filter info_entry (info_lines lines)),
                int (length (meta_lines lines)))
      else Inl AttributeError)"
  by (simp add: parse_vcf_meta_info_def meta_loop_eq)

theorem parse_vcf_meta_info_shape_witness:
  "parse_vcf_meta_info vcf_head = Inr ([(''ALLELEID'', ''the ClinVar Allele ID'')], 2)"
  using parse_vcf_meta_info_shape [of vcf_head]
  by (simp add: vcf_head_def info_lines_def meta_lines_def info_entry_def startswith_def
      dquote_def newline_def is_word_def upto_last_def)

text \<open>
  C3, as the claim states it, fails: a line \<open>##INFO=<Number=1,Type=Integer>\<close> makes
  the parser raise, where the claim has it return an empty map and the count 2.
\<close>

theorem parse_vcf_meta_info_malformed_counterexample:
  "parse_vcf_meta_info [''##fileformat=VCFv4.1'', ''##INFO=<Number=1,Type=Integer>''] =
     Inl AttributeError \<and>
   parse_vcf_meta_info [''##fileformat=VCFv4.1'', ''##INFO=<Number=1,Type=Integer>''] \<noteq>
     Inr ([], 2)"
  by (simp add: parse_vcf_meta_info_def startswith_def dquote_def newline_def)

text \<open>
  C4.  On a table with an \<open>MC\<close> column, \<open>create_mol_conseq_column\<close> succeeds and gives
  every row a \<open>MOLECULAR CONSEQUENCE\<close>.  For a row whose \<open>MC\<close> value is the string \<open>s\<close>:
  when \<open>s\<close> holds exactly one \<open>|\<close>, the new value is the text right of it; when \<open>s\<close>
  holds more than one \<open>|\<close>, or none, the new value is \<open>uncertain\<close>.
\<close>

theorem create_mol_conseq_column_rows:
  assumes "getcol df ''MC'' = Inr mc" and "i < length mc" and "mc ! i = Str s"
  shows "\<exists>df' out. create_mol_conseq_column df = Inr df' \<and>
           getcol df' ''MOLECULAR CONSEQUENCE'' = Inr out \<and> length out = length mc \<and>
           (count_list s (CHR ''|'') = 1 \<longrightarrow>
              out ! i = Str (tl (dropWhile (\<lambda>c. c \<noteq> CHR ''|'') s))) \<and>
           (\<forall>a b. s = a @ CHR ''|'' # b \<and> CHR ''|'' \<notin> set a \<and> CHR ''|'' \<notin> set b \<longrightarrow>
              out ! i = Str b) \<and>
           (1 < count_list s (CHR ''|'') \<longrightarrow> out ! i = Str ''uncertain'') \<and>
           (CHR ''|'' \<notin> set s \<longrightarrow> out ! i = Str ''uncertain'')"
proof -
  have "\<exists>out. series_apply mol_conseq mc = Inr out"
    by (rule series_apply_Inr) (simp add: mol_conseq_total)
  then obtain out where out: "series_apply mol_conseq mc = Inr out" ..
  have present: "''MC'' \<in> set (columns df)"
    using assms(1) by (auto simp: getcol_columns)
  have row: "mol_conseq (Str s) = Inr (out ! i)" and len: "length out = length mc"
    using series_apply_nth [OF out] assms(2,3) by auto
  have "create_mol_conseq_column df = Inr (setcol df ''MOLECULAR CONSEQUENCE'' out)"
    using present assms(1) out by (simp add: create_mol_conseq_column_def)
  moreover have "getcol (setcol df ''MOLECULAR CONSEQUENCE'' out) ''MOLECULAR CONSEQUENCE'' = Inr out"
    by (simp add: getcol_setcol)
  moreover have "count_list s (CHR ''|'') = 1 \<longrightarrow>
      out ! i = Str (tl (dropWhile (\<lambda>c. c \<noteq> CHR ''|'') s))"
    using row mol_conseq_count_one [of "Str s"] by auto
  moreover have "\<forall>a b. s = a @ CHR ''|'' # b \<and> CHR ''|'' \<notin> set a \<and> CHR ''|'' \<notin> set b \<longrightarrow>
      out ! i = Str b"
    using row mol_conseq_one [of _ _ "Str s"] by auto
  moreover have "1 < count_list s (CHR ''|'') \<longrightarrow> out ! i = Str ''uncertain''"
    using row mol_conseq_other [of "Str s"] by auto
  moreover have "CHR ''|'' \<notin> set s \<longrightarrow> out ! i = Str ''uncertain''"
    using row mol_conseq_other [of "Str s"] count_list_0_iff [of s "CHR ''|''"] by auto
  ultimately show ?thesis
    using len by blast
qed

theorem create_mol_conseq_column_rows_witness:
  "\<exists>df' out. create_mol_conseq_column mc_table = Inr df' \<and>
     getcol df' ''MOLECULAR CONSEQUENCE'' = Inr out \<and>
     out ! 0 = Str ''missense_variant'' \<and> out ! 1 = Str ''uncertain''"
proof -
  let ?mc = "[Str ''SO:0001583|missense_variant'',
       Str ''SO:0001819|synonymous_variant,SO:0001623|5_prime_UTR_variant'',
       Str ''intergenic'']"
  have col: "getcol mc_table ''MC'' = Inr ?mc"
    by (simp add: mc_table_def getcol_def)
  have r0: "?mc ! 0 = Str ''SO:0001583|missense_variant''" by simp
  have r1: "?mc ! 1 = Str ''SO:0001819|synonymous_variant,SO:0001623|5_prime_UTR_variant''"
    by simp
  from create_mol_conseq_column_rows [OF col _ r0] create_mol_conseq_column_rows [OF col _ r1]
  show ?thesis
    by auto
qed

text \<open>
  C5.  \<open>simplify_class_names\<close> on a string: \<open>Benign\<close> for exactly the three benign
  names, \<open>VUS\<close> for exactly \<open>Uncertain_significance\<close>, \<open>Pathogenic\<close> for exactly the seven
  pathogenic names, \<open>Other\<close> for every other string.  The match is exact: a name in
  lower case or with a trailing blank is \<open>Other\<close>.
\<close>

theorem simplify_class_names_buckets:
  "(simplify_class_names (Str s) = Str ''Benign'') =
     (s \<in> {''Likely_benign'', ''Benign'', ''Benign/Likely_benign''}) \<and>
   (simplify_class_names (Str s) = Str ''VUS'') = (s = ''Uncertain_significance'') \<and>
   (simplify_class_names (Str s) = Str ''Pathogenic'') =
     (s \<in> {''Pathogenic'', ''Likely_pathogenic'', ''Pathogenic/Likely_pathogenic'',
            ''risk_factor'', ''Pathogenic,_risk_factor'', ''Likely_pathogenic,_risk_factor'',
            ''Pathogenic/Likely_pathogenic,_risk_factor''}) \<and>
   (simplify_class_names (Str s) = Str ''Other'') =
     (s \<notin> {''Likely_benign'', ''Benign'', ''Benign/Likely_benign'', ''Uncertain_significance'',
            ''Pathogenic'', ''Likely_pathogenic'', ''Pathogenic/Likely_pathogenic'',
            ''risk_factor'', ''Pathogenic,_risk_factor'', ''Likely_pathogenic,_risk_factor'',
            ''Pathogenic/Likely_pathogenic,_risk_factor''}) \<and>
   simplify_class_names (Str ''benign'') = Str ''Other'' \<and>
   simplify_class_names (Str ''Benign '') = Str ''Other''"
  by (simp add: simplify_class_names_def benign_class_names_def vus_class_names_def
      pathogenic_class_names_def)

text \<open>
  C6.  \<open>create_is_conflicting_column\<close> always succeeds.  When the table has a
  \<open>CLNSIGCONF\<close> column, the new \<open>IS_CONFLICTING\<close> column holds, row by row, whether the
  \<open>CLNSIGCONF\<close> value is not null; when it has none, \<open>IS_CONFLICTING\<close> is the boolean
  false in every row of the index.
\<close>

theorem create_is_conflicting_column_values:
  "\<exists>df'. create_is_conflicting_column df = Inr df' \<and>
     (if ''CLNSIGCONF'' \<in> set (columns df)
      then \<exists>conf. getcol df ''CLNSIGCONF'' = Inr conf \<and>
             getcol df' ''IS_CONFLICTING'' = Inr (map (\<lambda>x. Boolean (x \<noteq> NaN)) conf)
      else getcol df' ''IS_CONFLICTING'' = Inr (replicate (index_len df) (Boolean False)))"
proof (cases "map_of (cols df) ''CLNSIGCONF''")
  case None
  then show ?thesis
    by (simp add: create_is_conflicting_column_def columns_map_of getcol_setcol)
next
  case (Some conf)
  have conf: "getcol df ''CLNSIGCONF'' = Inr conf"
    using Some by (simp add: getcol_def)
  then have "create_is_conflicting_column df =
      Inr (setcol df ''IS_CONFLICTING'' (map (\<lambda>x. Boolean (x \<noteq> NaN)) conf))"
    using Some by (simp add: create_is_conflicting_column_def columns_map_of notna_eq)
  with Some conf show ?thesis
    by (simp add: columns_map_of getcol_setcol)
qed

theorem create_is_conflicting_column_values_witness:
  "(\<exists>df'. create_is_conflicting_column conf_table = Inr df' \<and>
      getcol df' ''IS_CONFLICTING'' = Inr [Boolean True, Boolean False]) \<and>
   (\<exists>df'. create_is_conflicting_column plain_table = Inr df' \<and>
      getcol df' ''IS_CONFLICTING'' = Inr [Boolean False, Boolean False])"
  using create_is_conflicting_column_values [of conf_table]
    create_is_conflicting_column_values [of plain_table]
  by (auto simp: conf_table_def plain_table_def columns_def getcol_def numeral_2_eq_2)

text \<open>
  C7.  Let the effect-score table have the columns \<open>chr\<close>, \<open>hg19_pos\<close>, \<open>ref\<close>, \<open>alt\<close>
  and \<open>grch38_pos\<close>, the variant-call table \<open>CHROM\<close>, \<open>POS\<close>, \<open>REF\<close>, \<open>ALT\<close> and \<open>GENE\<close>,
  the dosage table \<open>#Gene Symbol\<close>, and let no two of the tables share a column name.
  Then the assembler succeeds.  The rows of its result are those of the inner join of
  the effect-score rows with the variant-call rows on
  \<open>(chr, hg19_pos, ref, alt) = (CHROM, POS, REF, ALT)\<close>, left-joined with the dosage rows
  on \<open>GENE = #Gene Symbol\<close>, restricted to the rows whose \<open>GENE\<close> is in the allow-list,
  without the columns \<open>CHROM\<close>, \<open>POS\<close>, \<open>REF\<close>, \<open>ALT\<close>, \<open>#Gene Symbol\<close> and \<open>grch38_pos\<close>.
  Spelled out: a row is in the result exactly when it is made of an effect-score row
  and a variant-call row that agree on the four keys, and of a dosage row with that
  gene symbol or, when there is none, of nulls in the dosage columns, with a gene of
  the allow-list, the six columns removed.
\<close>

theorem master_df_assembles:
  assumes "set [''chr'', ''hg19_pos'', ''ref'', ''alt'', ''grch38_pos''] \<subseteq> set (columns revel)"
    and "set [''CHROM'', ''POS'', ''REF'', ''ALT'', ''GENE''] \<subseteq> set (columns clinvar)"
    and "''#Gene Symbol'' \<in> set (columns dosage)"
    and "set (columns revel) \<inter> set (columns clinvar) = {}"
    and "(set (columns revel) \<union> set (columns clinvar)) \<inter> set (columns dosage) = {}"
  shows "\<exists>m. master_df acmg59_genes revel clinvar dosage = Inr m \<and>
           columns m =
             filter (\<lambda>n. n \<notin> set [''CHROM'', ''POS'', ''REF'', ''ALT'', ''#Gene Symbol'', ''grch38_pos''])
               (columns revel @ columns clinvar @ columns dosage) \<and>
           rows m = spec_master_rows acmg59_genes (rows revel) (rows clinvar) (rows dosage) (null_row dosage) \<and>
           (\<forall>r. (r \<in> set (rows m)) =
              (\<exists>a b d. a \<in> set (rows revel) \<and> b \<in> set (rows clinvar) \<and>
                 row_key [''CHROM'', ''POS'', ''REF'', ''ALT''] b =
                   row_key [''chr'', ''hg19_pos'', ''ref'', ''alt''] a \<and>
                 (d \<in> set (rows dosage) \<and> row_key [''#Gene Symbol''] d = row_key [''GENE''] (a @ b) \<or>
                  (\<forall>e\<in>set (rows dosage). row_key [''#Gene Symbol''] e \<noteq> row_key [''GENE''] (a @ b)) \<and>
                    d = null_row dosage) \<and>
                 spec_isin ''GENE'' acmg59_genes (a @ b @ d) \<and>
                 r = filter (\<lambda>(n, v). n \<notin> set [''CHROM'', ''POS'', ''REF'', ''ALT'', ''#Gene Symbol'', ''grch38_pos''])
                       (a @ b @ d)))"
proof -
  from master_df_rows [OF assms, of acmg59_genes] obtain m where
    m: "master_df acmg59_genes revel clinvar dosage = Inr m"
    and c: "columns m =
             filter (\<lambda>n. n \<notin> set [''CHROM'', ''POS'', ''REF'', ''ALT'', ''#Gene Symbol'', ''grch38_pos''])
               (columns revel @ columns clinvar @ columns dosage)"
    and r: "rows m = spec_master_rows acmg59_genes (rows revel) (rows clinvar) (rows dosage) (null_row dosage)"
    by blast
  show ?thesis
    by (rule exI [of _ m]) (simp only: m c r set_spec_master_rows simp_thms)
qed

theorem master_df_assembles_witness:
  "\<exists>m. master_df [''BRCA1'', ''BRCA2''] revel_ex clinvar_ex dosage_ex = Inr m \<and>
     columns m = [''chr'', ''hg19_pos'', ''ref'', ''alt'', ''REVEL'', ''GENE'', ''Haploinsufficiency Score''] \<and>
     rows m =
       [[(''chr'', Str ''17''), (''hg19_pos'', Num 41197701), (''ref'', Str ''G''), (''alt'', Str ''A''),
         (''REVEL'', Str ''0.9''), (''GENE'', Str ''BRCA1''), (''Haploinsufficiency Score'', NaN)],
        [(''chr'', Str ''13''), (''hg19_pos'', Num 32890600), (''ref'', Str ''A''), (''alt'', Str ''C''),
         (''REVEL'', Str ''0.1''), (''GENE'', Str ''BRCA2''), (''Haploinsufficiency Score'', Num 3)]]"
proof -
  have c1: "set [''chr'', ''hg19_pos'', ''ref'', ''alt'', ''grch38_pos''] \<subseteq> set (columns revel_ex)"
    by (simp add: revel_ex_def columns_def)
  have c2: "set [''CHROM'', ''POS'', ''REF'', ''ALT'', ''GENE''] \<subseteq> set (columns clinvar_ex)"
    by (simp add: clinvar_ex_def columns_def)
  have c3: "''#Gene Symbol'' \<in> set (columns dosage_ex)"
    by (simp add: dosage_ex_def columns_def)
  have c4: "set (columns revel_ex) \<inter> set (columns clinvar_ex) = {}"
    by (simp add: revel_ex_def clinvar_ex_def columns_def)
  have c5: "(set (columns revel_ex) \<union> set (columns clinvar_ex)) \<inter> set (columns dosage_ex) = {}"
    by (simp add: revel_ex_def clinvar_ex_def dosage_ex_def columns_def)
  have rv: "rows revel_ex =
      [[(''chr'', Str ''17''), (''hg19_pos'', Num 41197701), (''grch38_pos'', Str ''43045684''),
        (''ref'', Str ''G''), (''alt'', Str ''A''), (''REVEL'', Str ''0.9'')],
       [(''chr'', Str ''13''), (''hg19_pos'', Num 32890600), (''grch38_pos'', Str ''32316463''),
        (''ref'', Str ''A''), (''alt'', Str ''C''), (''REVEL'', Str ''0.1'')],
       [(''chr'', Str ''1''), (''hg19_pos'', Num 100), (''grch38_pos'', Str ''90''),
        (''ref'', Str ''C''), (''alt'', Str ''T''), (''REVEL'', Str ''0.5'')]]"
    by (simp add: rows_def row_of_def revel_ex_def upt_rec)
  have cv: "rows clinvar_ex =
      [[(''CHROM'', Str ''13''), (''POS'', Num 32890600), (''REF'', Str ''A''), (''ALT'', Str ''C''),
        (''GENE'', Str ''BRCA2'')],
       [(''CHROM'', Str ''17''), (''POS'', Num 41197701), (''REF'', Str ''G''), (''ALT'', Str ''A''),
        (''GENE'', Str ''BRCA1'')],
       [(''CHROM'', Str ''2''), (''POS'', Num 7), (''REF'', Str ''T''), (''ALT'', Str ''G''),
        (''GENE'', Str ''XYZ'')]]"
    by (simp add: rows_def row_of_def clinvar_ex_def upt_rec)
  have dv: "rows dosage_ex = [[(''#Gene Symbol'', Str ''BRCA2''), (''Haploinsufficiency Score'', Num 3)]]"
    by (simp add: rows_def row_of_def dosage_ex_def)
  have nv: "null_row dosage_ex = [(''#Gene Symbol'', NaN), (''Haploinsufficiency Score'', NaN)]"
    by (simp add: null_row_def columns_def dosage_ex_def)
  have inner: "spec_inner_join [''chr'', ''hg19_pos'', ''ref'', ''alt''] [''CHROM'', ''POS'', ''REF'', ''ALT'']
      (rows revel_ex) (rows clinvar_ex) =
      [[(''chr'', Str ''17''), (''hg19_pos'', Num 41197701), (''grch38_pos'', Str ''43045684''),
        (''ref'', Str ''G''), (''alt'', Str ''A''), (''REVEL'', Str ''0.9''),
        (''CHROM'', Str ''17''), (''POS'', Num 41197701), (''REF'', Str ''G''), (''ALT'', Str ''A''),
        (''GENE'', Str ''BRCA1'')],
       [(''chr'', Str ''13''), (''hg19_pos'', Num 32890600), (''grch38_pos'', Str ''32316463''),
        (''ref'', Str ''A''), (''alt'', Str ''C''), (''REVEL'', Str ''0.1''),
        (''CHROM'', Str ''13''), (''POS'', Num 32890600), (''REF'', Str ''A''), (''ALT'', Str ''C''),
        (''GENE'', Str ''BRCA2'')]]"
    unfolding rv cv by (simp add: spec_inner_join_def row_key_def)
  have spec: "spec_master_rows [''BRCA1'', ''BRCA2''] (rows revel_ex) (rows clinvar_ex) (rows dosage_ex)
      (null_row dosage_ex) =
       [[(''chr'', Str ''17''), (''hg19_pos'', Num 41197701), (''ref'', Str ''G''), (''alt'', Str ''A''),
         (''REVEL'', Str ''0.9''), (''GENE'', Str ''BRCA1''), (''Haploinsufficiency Score'', NaN)],
        [(''chr'', Str ''13''), (''hg19_pos'', Num 32890600), (''ref'', Str ''A''), (''alt'', Str ''C''),
         (''REVEL'', Str ''0.1''), (''GENE'', Str ''BRCA2''), (''Haploinsufficiency Score'', Num 3)]]"
    unfolding spec_master_rows_def inner unfolding dv nv
    by (simp add: spec_left_join_def row_key_def spec_isin_def)
  have cols: "filter (\<lambda>n. n \<notin> set [''CHROM'', ''POS'', ''REF'', ''ALT'', ''#Gene Symbol'', ''grch38_pos''])
      (columns revel_ex @ columns clinvar_ex @ columns dosage_ex) =
      [''chr'', ''hg19_pos'', ''ref'', ''alt'', ''REVEL'', ''GENE'', ''Haploinsufficiency Score'']"
    by (simp add: revel_ex_def clinvar_ex_def dosage_ex_def columns_def)
  from master_df_assembles [OF c1 c2 c3 c4 c5, of "[''BRCA1'', ''BRCA2'']"]
  obtain m where "master_df [''BRCA1'', ''BRCA2''] revel_ex clinvar_ex dosage_ex = Inr m"
    and "columns m = filter (\<lambda>n. n \<notin> set [''CHROM'', ''POS'', ''REF'', ''ALT'', ''#Gene Symbol'', ''grch38_pos''])
      (columns revel_ex @ columns clinvar_ex @ columns dosage_ex)"
    and "rows m = spec_master_rows [''BRCA1'', ''BRCA2''] (rows revel_ex) (rows clinvar_ex) (rows dosage_ex)
      (null_row dosage_ex)"
    by blast
  then show ?thesis
    by (intro exI [of _ m]) (simp only: cols spec simp_thms)
qed

text \<open>
  C8.  Whenever the decoder returns a mapping \<open>d\<close> for a string, re-encoding the pairs
  of \<open>d\<close>, taken in any order \<open>d'\<close>, gives a string that the decoder accepts, and the
  mapping it returns holds the same key/value pairs as \<open>d\<close>.
\<close>

theorem convert_info_string_to_dict_roundtrip:
  assumes "convert_info_string_to_dict s = Inr d" and "mset d' = mset d"
  shows "convert_info_string_to_dict (encode_info_dict d') = Inr d' \<and> set d' = set d"
proof -
  have loop: "info_loop [] (split_str (CHR '';'') s) = Inr d"
    using assms(1) by (simp add: convert_info_string_to_dict_def)
  have "dict_ok d"
    using loop by (rule info_loop_ok) (auto simp: dict_ok_def dest: split_str_parts_no_sep)
  moreover have "mset (map fst d') = mset (map fst d)"
    using assms(2) by (metis mset_map)
  then have "distinct (map fst d') = distinct (map fst d)"
    by (rule mset_eq_imp_distinct_iff)
  moreover have same: "set d' = set d"
    using assms(2) by (rule mset_eq_setD)
  ultimately have ok: "dict_ok d'"
    by (simp add: dict_ok_def)
  have "d \<noteq> []"
    using loop by (rule info_loop_nonempty) (simp add: split_str_nonempty)
  with assms(2) have ne: "d' \<noteq> []"
    by auto
  have "info_loop [] (map (\<lambda>(k, v). k @ CHR ''='' # v) d') = Inr ([] @ d')"
    using ok by (intro info_loop_pieces) (auto simp: dict_ok_def)
  with same show ?thesis
    by (simp add: convert_info_string_to_dict_def split_encode [OF ok ne])
qed

theorem convert_info_string_to_dict_roundtrip_witness:
  "convert_info_string_to_dict ''D=1;A=x'' = Inr [(''D'', ''1''), (''A'', ''x'')] \<and>
   set [(''D'', ''1''), (''A'', ''x'')] = set [(''A'', ''x''), (''D'', ''1'')]"
proof -
  have dec: "convert_info_string_to_dict ''A=B=C;D=1;A=x'' = Inr [(''A'', ''x''), (''D'', ''1'')]"
    by (simp add: convert_info_string_to_dict_def)
  have per: "mset [(''D'', ''1''), (''A'', ''x'')] = mset [(''A'', ''x''), (''D'', ''1'')]"
    by simp
  show ?thesis
    using convert_info_string_to_dict_roundtrip [OF dec per]
    by (simp add: encode_info_dict_def)
qed

text \<open>
  C9.  When the source column is not among the table's columns (\<open>GENEINFO\<close> for
  \<open>create_gene_column\<close>, \<open>MC\<close> for \<open>create_mol_conseq_column\<close>, \<open>CLNSIG\<close> for
  \<open>create_class_column\<close>), the derivation returns the table it was given, unchanged,
  and raises nothing.
\<close>

theorem derivations_without_source:
  "(''GENEINFO'' \<notin> set (columns df) \<longrightarrow> create_gene_column df = Inr df) \<and>
   (''MC'' \<notin> set (columns df) \<longrightarrow> create_mol_conseq_column df = Inr df) \<and>
   (''CLNSIG'' \<notin> set (columns df) \<longrightarrow> create_class_column df = Inr df)"
  by (simp add: create_gene_column_def create_mol_conseq_column_def create_class_column_def)

theorem derivations_without_source_witness:
  "create_gene_column plain_table = Inr plain_table \<and>
   create_mol_conseq_column plain_table = Inr plain_table \<and>
   create_class_column plain_table = Inr plain_table"
  using derivations_without_source [of plain_table]
  by (simp add: plain_table_def columns_def)

text \<open>
  C10.  When the table has a \<open>GENEINFO\<close> column and a row's \<open>GENEINFO\<close> is null,
  \<open>create_gene_column\<close> sets that row's \<open>GENE\<close> to the string \<open>nan\<close>.
\<close>

theorem create_gene_column_null:
  assumes "getcol df ''GENEINFO'' = Inr geneinfo" and "i < length geneinfo"
    and "geneinfo ! i = NaN"
  shows "\<exists>df' gene. create_gene_column df = Inr df' \<and> getcol df' ''GENE'' = Inr gene \<and>
           length gene = length geneinfo \<and> gene ! i = Str ''nan''"
proof -
  let ?gene = "map (\<lambda>x. Str (takeWhile (\<lambda>c. c \<noteq> CHR '':'') (astype_str x))) geneinfo"
  have app: "series_apply gene_symbol geneinfo = Inr ?gene"
    by (rule series_apply_total) (simp add: gene_symbol_eq)
  have "''GENEINFO'' \<in> set (columns df)"
    using assms(1) by (auto simp: getcol_columns)
  then have "create_gene_column df = Inr (setcol df ''GENE'' ?gene)"
    using assms(1) app by (simp add: create_gene_column_def)
  moreover have "getcol (setcol df ''GENE'' ?gene) ''GENE'' = Inr ?gene"
    by (simp add: getcol_setcol)
  moreover have "?gene ! i = Str ''nan''"
    using assms(2,3) by simp
  ultimately show ?thesis by auto
qed

theorem create_gene_column_null_witness:
  "\<exists>df' gene. create_gene_column gene_table = Inr df' \<and> getcol df' ''GENE'' = Inr gene \<and>
     gene ! 1 = Str ''nan''"
proof -
  have col: "getcol gene_table ''GENEINFO'' = Inr [Str ''AGRN:375790'', NaN]"
    by (simp add: gene_table_def getcol_def)
  have row: "[Str ''AGRN:375790'', NaN] ! 1 = NaN"
    by simp
  from create_gene_column_null [OF col _ row] show ?thesis
    by auto
qed

end
